theory Spec2Isabelle
  imports Complex_Main "HOL-Library.AList" "HOL-Library.Log_Nat"
begin

section \<open>Time, exceptions and Python objects\<close>

text \<open>
  A naive \<open>datetime.datetime\<close> is the number of microseconds of its wall-clock reading
  since the epoch; a \<open>datetime.timedelta\<close> is a number of microseconds. Both have
  microsecond resolution in Python, so the integers are exact.
\<close>

type_synonym datetime = int
type_synonym timedelta = int

definition timedelta_days :: "int \<Rightarrow> timedelta" where
  "timedelta_days n = n * 86400000000"

definition timedelta_hours :: "int \<Rightarrow> timedelta" where
  "timedelta_hours n = n * 3600000000"

definition timedelta_minutes :: "int \<Rightarrow> timedelta" where
  "timedelta_minutes n = n * 60000000"

text \<open>
  \<open>datetime.min\<close> (0001-01-01 00:00:00) and \<open>datetime.max\<close> (9999-12-31
  23:59:59.999999), in microseconds since the epoch.
\<close>

definition datetime_min :: datetime where
  "datetime_min = - 62135596800000000"

definition datetime_max :: datetime where
  "datetime_max = 253402300799999999"

datatype pyexn =
  TypeError | ValueError | OverflowError | NotFound | Forbidden | HTTPException | TimeoutError

text \<open>
  \<open>d + td\<close> on a datetime: Python raises \<open>OverflowError\<close> (date value out of range) when
  the result leaves the range of \<open>datetime\<close>.
\<close>

definition datetime_plus :: "datetime \<Rightarrow> timedelta \<Rightarrow> pyexn + datetime" where
  "datetime_plus d td =
     (if datetime_min \<le> d + td \<and> d + td \<le> datetime_max then Inr (d + td)
      else Inl OverflowError)"

text \<open>
  A Python \<open>float\<close> is a binary64 number, here the rational it denotes. \<open>py_float q\<close> is
  the binary64 number nearest to the rational \<open>q\<close>, ties to even: with \<open>e\<close> the exponent
  that puts \<open>|q| / 2^e\<close> between \<open>2^52\<close> and \<open>2^53\<close>, the quotient is rounded to an integer
  and scaled back. The numbers rounded in this file are multiples of \<open>10^-6\<close> below
  \<open>2^63\<close> and sums of two such floats, so no result is subnormal or infinite.
\<close>

definition pow2 :: "int \<Rightarrow> rat" where
  "pow2 k = (if 0 \<le> k then 2 ^ nat k else 1 / 2 ^ nat (- k))"

definition round_half_even :: "rat \<Rightarrow> int" where
  "round_half_even x =
     (let f = \<lfloor>x\<rfloor>; r = x - of_int f
      in if r < 1 / 2 then f
         else if 1 / 2 < r then f + 1
         else if even f then f else f + 1)"

text \<open>The integer part of the binary logarithm of a positive rational.\<close>

definition floor_log2 :: "rat \<Rightarrow> int" where
  "floor_log2 a =
     (let k = bitlen (fst (quotient_of a)) - bitlen (snd (quotient_of a))
      in if pow2 k \<le> a then k else k - 1)"

definition py_float :: "rat \<Rightarrow> rat" where
  "py_float q =
     (if q = 0 then 0
      else let e = floor_log2 \<bar>q\<bar> - 52;
               m = round_half_even (\<bar>q\<bar> / pow2 e)
           in sgn q * of_int m * pow2 e)"

text \<open>
  \<open>timedelta.total_seconds()\<close>: the microseconds of the duration divided by \<open>10**6\<close>,
  a true division of two integers, which Python rounds correctly to a float.
\<close>

definition total_seconds :: "timedelta \<Rightarrow> rat" where
  "total_seconds td = py_float (of_int td / 1000000)"

text \<open>
  \<open>datetime.timestamp()\<close> of a naive datetime, on a host whose local zone is UTC (the
  cog's naive datetimes are UTC throughout): the whole seconds since the epoch plus
  \<open>microsecond / 1e6\<close>, a float division and a float addition. CPython looks one day
  back for an earlier reading of the same local time, so a datetime within the first day
  after \<open>datetime.min\<close> raises \<open>ValueError\<close> (year 0 is out of range).
\<close>

definition timestamp :: "datetime \<Rightarrow> pyexn + rat" where
  "timestamp d =
     (if d < datetime_min + timedelta_days 1 then Inl ValueError
      else Inr (py_float (of_int (d div 1000000) + py_float (of_int (d mod 1000000) / 1000000))))"

text \<open>
  What \<open>dateutil.parser.parse\<close> returns: a wall-clock reading and, when the text
  carried a UTC offset, that fixed offset (an aware datetime); \<open>None\<close> for a naive one.
  Python compares and subtracts two naive datetimes by their wall clocks, two aware ones
  by their UTC instants (wall clock minus offset), and raises \<open>TypeError\<close> on a mix.
  Adding a timedelta moves the wall clock and keeps the offset.
\<close>

record parsed_datetime =
  wall :: datetime
  utcoffset :: "timedelta option"

definition dt_less :: "parsed_datetime \<Rightarrow> parsed_datetime \<Rightarrow> pyexn + bool" where
  "dt_less a b =
     (case (utcoffset a, utcoffset b) of
        (None, None) \<Rightarrow> Inr (wall a < wall b)
      | (Some oa, Some ob) \<Rightarrow> Inr (wall a - oa < wall b - ob)
      | (None, Some ob) \<Rightarrow> Inl TypeError
      | (Some oa, None) \<Rightarrow> Inl TypeError)"

definition dt_minus :: "parsed_datetime \<Rightarrow> parsed_datetime \<Rightarrow> pyexn + timedelta" where
  "dt_minus a b =
     (case (utcoffset a, utcoffset b) of
        (None, None) \<Rightarrow> Inr (wall a - wall b)
      | (Some oa, Some ob) \<Rightarrow> Inr ((wall a - oa) - (wall b - ob))
      | (None, Some ob) \<Rightarrow> Inl TypeError
      | (Some oa, None) \<Rightarrow> Inl TypeError)"

definition dt_plus :: "parsed_datetime \<Rightarrow> timedelta \<Rightarrow> pyexn + parsed_datetime" where
  "dt_plus a td =
     (case datetime_plus (wall a) td of
        Inl e \<Rightarrow> Inl e
      | Inr w \<Rightarrow> Inr (a\<lparr>wall := w\<rparr>))"

text \<open>\<open>d.replace(tzinfo=None)\<close>: the wall-clock reading, the offset dropped.\<close>

definition replace_tzinfo_None :: "parsed_datetime \<Rightarrow> datetime" where
  "replace_tzinfo_None a = wall a"

text \<open>
  The objects the source tests for membership in a cache dictionary. The keys of a
  \<open>RedisCache\<close> are the member ids (\<open>int\<close>) that \<open>set(mod.id, ...)\<close> stored.
  \<open>discord.Member.__eq__\<close> is \<open>isinstance(other, _BaseUser) and other.id == self.id\<close>,
  so a \<open>Member\<close> object equals no \<open>int\<close> key: \<open>mod in d\<close> is false for every
  dictionary of the cache, while \<open>mod.id in d\<close> looks the id up.
\<close>

datatype pyobj = PyInt nat | PyMember nat

fun py_in_dict :: "pyobj \<Rightarrow> (nat \<times> 'v) list \<Rightarrow> bool" where
  "py_in_dict (PyInt k) d = (map_of d k \<noteq> None)"
| "py_in_dict (PyMember m) d = False"

section \<open>The Scheduler\<close>

text \<open>
  The coroutines the cog hands to its scheduler: \<open>self.reapply_role(mod)\<close> and
  \<open>self.add_role_schedule(mod, work_time, schedule_start)\<close>.
\<close>

datatype coroutine = ReapplyRole nat | AddRoleSchedule nat rat datetime

text \<open>
  A scheduler is its pending timers, in the order they were armed: key, fire time and
  the bound action.
\<close>

type_synonym scheduler = "(nat \<times> datetime \<times> coroutine) list"

text \<open>
  Modelled from the spec: \<open>bot.utils.scheduling.Scheduler\<close> is not among the sources.
  Membership test: whether the key currently has a pending timer.
\<close>

definition scheduler_contains :: "scheduler \<Rightarrow> nat \<Rightarrow> bool" where
  "scheduler_contains sch k = (map_of sch k \<noteq> None)"

text \<open>
  Modelled from the spec: \<open>Scheduler.schedule_at\<close> is not among the sources. It registers
  the action to run at the given time; a key that already has a pending timer is not
  overwritten (no implicit overwrite: the caller cancels first).
\<close>

definition schedule_at :: "datetime \<Rightarrow> nat \<Rightarrow> coroutine \<Rightarrow> scheduler \<Rightarrow> scheduler" where
  "schedule_at t k c sch = (if scheduler_contains sch k then sch else sch @ [(k, t, c)])"

text \<open>
  Modelled from the spec: \<open>Scheduler.cancel\<close> is not among the sources. It cancels the
  pending timer of the key if present, and does nothing otherwise.
\<close>

definition cancel :: "nat \<Rightarrow> scheduler \<Rightarrow> scheduler" where
  "cancel k sch = filter (\<lambda>entry. fst entry \<noteq> k) sch"

section \<open>The ModPings cog\<close>

text \<open>\<open>MINIMUM_WORK_LIMIT = 16\<close>\<close>

definition MINIMUM_WORK_LIMIT :: int where
  "MINIMUM_WORK_LIMIT = 16"

text \<open>What the commands send to the invoking channel.\<close>

datatype reply =
    CannotRemoveLongerThan30Days
  | RemovedUntilEmbed datetime
  | AlreadyHaveRole
  | RoleReapplied
  | NeedMinimumHours nat int
  | ScheduledModPings nat datetime datetime

text \<open>
  The state the cog reads and writes: the members holding the pingable moderators role
  and the members of the mod team (the guild's live state), the two Redis caches, the
  scheduler and the messages sent. \<open>pings_off_mods\<close> maps a member id to the time the
  role is re-applied; the source stores \<open>duration.isoformat()\<close> and reads it back with
  \<open>isoparse(...).replace(tzinfo=None)\<close>, which returns the naive datetime stored, so
  the model keeps the datetime. \<open>modpings_schedule\<close> maps a member id to the two numbers
  of the text \<open>f"{start.timestamp()}|{work_time}"\<close>.
\<close>

record modpings =
  moderators_role :: "nat set"
  mod_team :: "nat list"
  pings_off_mods :: "(nat \<times> datetime) list"
  modpings_schedule :: "(nat \<times> rat \<times> rat) list"
  role_scheduler :: scheduler
  sent :: "reply list"

text \<open>
  \<open>__init__\<close>: a fresh \<open>Scheduler\<close>; the guild and the caches are what they are when
  the cog is loaded.
\<close>

definition ModPings_init ::
  "nat set \<Rightarrow> nat list \<Rightarrow> (nat \<times> datetime) list \<Rightarrow> (nat \<times> rat \<times> rat) list \<Rightarrow> modpings" where
  "ModPings_init holders team off_cache schedule_cache =
     \<lparr>moderators_role = holders, mod_team = team, pings_off_mods = off_cache,
      modpings_schedule = schedule_cache, role_scheduler = [], sent = []\<rparr>"

definition add_roles :: "nat \<Rightarrow> modpings \<Rightarrow> modpings" where
  "add_roles m s = s\<lparr>moderators_role := insert m (moderators_role s)\<rparr>"

definition remove_roles :: "nat \<Rightarrow> modpings \<Rightarrow> modpings" where
  "remove_roles m s = s\<lparr>moderators_role := moderators_role s - {m}\<rparr>"

definition ctx_send :: "reply \<Rightarrow> modpings \<Rightarrow> modpings" where
  "ctx_send r s = s\<lparr>sent := sent s @ [r]\<rparr>"

definition reapply_role :: "nat \<Rightarrow> modpings \<Rightarrow> modpings" where
  "reapply_role m s = add_roles m s"

text \<open>
  \<open>reschedule_roles\<close>: the loop over \<open>mod_team.members\<close> and its body. \<open>pings_on\<close> and
  \<open>pings_off\<close> are read once, before the loop. The inner test of the first branch is
  \<open>mod in pings_off\<close>, on the \<open>Member\<close> object; the second branch tests
  \<open>mod.id not in pings_off\<close> (the id has no entry: \<open>None\<close>) and otherwise reads
  \<open>pings_off[mod.id]\<close>.
\<close>

definition reschedule_roles_body ::
  "nat set \<Rightarrow> (nat \<times> datetime) list \<Rightarrow> nat \<Rightarrow> modpings \<Rightarrow> modpings" where
  "reschedule_roles_body pings_on pings_off m s =
     (if m \<in> pings_on then
        (if py_in_dict (PyMember m) pings_off
         then s\<lparr>pings_off_mods := AList.delete m (pings_off_mods s)\<rparr>
         else s)
      else (case map_of pings_off m of
              None \<Rightarrow> reapply_role m s
            | Some expiry \<Rightarrow>
                s\<lparr>role_scheduler := schedule_at expiry m (ReapplyRole m) (role_scheduler s)\<rparr>))"

fun reschedule_roles_loop ::
  "nat set \<Rightarrow> (nat \<times> datetime) list \<Rightarrow> nat list \<Rightarrow> modpings \<Rightarrow> modpings" where
  "reschedule_roles_loop pings_on pings_off [] s = s"
| "reschedule_roles_loop pings_on pings_off (m # ms) s =
     reschedule_roles_loop pings_on pings_off ms (reschedule_roles_body pings_on pings_off m s)"

definition reschedule_roles :: "modpings \<Rightarrow> modpings" where
  "reschedule_roles s =
     reschedule_roles_loop (moderators_role s) (pings_off_mods s) (mod_team s) s"

text \<open>
  \<open>reschedule_modpings_schedule\<close>: \<open>for mod_id, schedule in schedule_cache\<close> iterates
  the dictionary \<open>to_dict()\<close> returned, which yields its keys. A key is an \<open>int\<close>, and
  unpacking it into \<open>mod_id, schedule\<close> raises \<open>TypeError\<close> (cannot unpack non-iterable
  int object) before the loop body runs. The exception ends the task; the cog's state is
  what it was.
\<close>

fun reschedule_modpings_schedule_loop :: "nat list \<Rightarrow> modpings \<Rightarrow> pyexn option \<times> modpings" where
  "reschedule_modpings_schedule_loop [] s = (None, s)"
| "reschedule_modpings_schedule_loop (key # keys) s = (Some TypeError, s)"

definition reschedule_modpings_schedule :: "modpings \<Rightarrow> pyexn option \<times> modpings" where
  "reschedule_modpings_schedule s =
     reschedule_modpings_schedule_loop (map fst (modpings_schedule s)) s"

text \<open>
  \<open>remove_role_schedule\<close>: remove the role, add one minute to \<open>schedule_start\<close> and
  schedule \<open>add_role_schedule\<close> again at that time. The addition raises
  \<open>OverflowError\<close> past \<open>datetime.max\<close>, after the role was removed.
\<close>

definition remove_role_schedule ::
  "nat \<Rightarrow> rat \<Rightarrow> datetime \<Rightarrow> modpings \<Rightarrow> pyexn option \<times> modpings" where
  "remove_role_schedule m work_time schedule_start s =
     (let s1 = remove_roles m s
      in case datetime_plus schedule_start (timedelta_minutes 1) of
           Inl e \<Rightarrow> (Some e, s1)
         | Inr schedule_start' \<Rightarrow>
             (None,
              s1\<lparr>role_scheduler :=
                    schedule_at schedule_start' m (AddRoleSchedule m work_time schedule_start')
                      (role_scheduler s1)\<rparr>))"

text \<open>
  \<open>add_role_schedule\<close> up to its \<open>await asyncio.sleep(work_time)\<close>: the test is
  \<open>mod in await self.pings_off_mods.to_dict()\<close>, on the \<open>Member\<close> object.
\<close>

definition add_role_schedule_start :: "nat \<Rightarrow> modpings \<Rightarrow> modpings" where
  "add_role_schedule_start m s =
     (if py_in_dict (PyMember m) (pings_off_mods s) then s else add_roles m s)"

text \<open>
  \<open>add_role_schedule\<close> when nothing else runs during the sleep: the first part, then
  \<open>remove_role_schedule\<close>.
\<close>

definition add_role_schedule ::
  "nat \<Rightarrow> rat \<Rightarrow> datetime \<Rightarrow> modpings \<Rightarrow> pyexn option \<times> modpings" where
  "add_role_schedule m work_time schedule_start s =
     remove_role_schedule m work_time schedule_start (add_role_schedule_start m s)"

text \<open>
  \<open>off_command\<close>: \<open>now\<close> is \<open>datetime.datetime.utcnow()\<close>, \<open>author\<close> is
  \<open>ctx.author\<close>, \<open>duration\<close> the naive datetime the \<open>Expiry\<close> converter returned.
\<close>

definition off_command :: "datetime \<Rightarrow> nat \<Rightarrow> datetime \<Rightarrow> modpings \<Rightarrow> modpings" where
  "off_command now author duration s =
     (let delta = duration - now in
      if delta > timedelta_days 30 then ctx_send CannotRemoveLongerThan30Days s
      else
        let s1 = remove_roles author s;
            s2 = s1\<lparr>pings_off_mods := AList.update author duration (pings_off_mods s1)\<rparr>;
            s3 = (if scheduler_contains (role_scheduler s2) author
                  then s2\<lparr>role_scheduler := cancel author (role_scheduler s2)\<rparr>
                  else s2);
            s4 = s3\<lparr>role_scheduler :=
                      schedule_at duration author (ReapplyRole author) (role_scheduler s3)\<rparr>
        in ctx_send (RemovedUntilEmbed duration) s4)"


text \<open>
  \<open>schedule_modpings\<close>, from the two datetimes \<open>parse\<close> returned. The comparison and the
  first subtraction are on the datetimes as parsed; \<open>work_time\<close> is computed after
  \<open>replace(tzinfo=None)\<close>. The exceptions on the way end the command where they are
  raised: \<open>TypeError\<close> at the comparison of a naive with an aware datetime,
  \<open>OverflowError\<close> at \<open>end += timedelta(days=1)\<close>, and \<open>ValueError\<close> at
  \<open>start.timestamp()\<close>, which is evaluated for the text to store before the cache is
  written.
\<close>

definition schedule_modpings ::
  "nat \<Rightarrow> parsed_datetime \<Rightarrow> parsed_datetime \<Rightarrow> modpings \<Rightarrow> pyexn + modpings" where
  "schedule_modpings author start endt s =
     (case dt_less endt start of
        Inl e \<Rightarrow> Inl e
      | Inr lt \<Rightarrow>
          (case (if lt then dt_plus endt (timedelta_days 1) else Inr endt) of
             Inl e \<Rightarrow> Inl e
           | Inr endt1 \<Rightarrow>
               (case dt_minus endt1 start of
                  Inl e \<Rightarrow> Inl e
                | Inr window \<Rightarrow>
                    if window < timedelta_hours MINIMUM_WORK_LIMIT
                    then Inr (ctx_send (NeedMinimumHours author MINIMUM_WORK_LIMIT) s)
                    else
                      let start' = replace_tzinfo_None start;
                          endt' = replace_tzinfo_None endt1;
                          work_time = total_seconds (endt' - start')
                      in (case timestamp start' of
                            Inl e \<Rightarrow> Inl e
                          | Inr ts \<Rightarrow>
                              let s1 = s\<lparr>modpings_schedule :=
                                           AList.update author (ts, work_time)
                                             (modpings_schedule s)\<rparr>;
                                  s2 = s1\<lparr>role_scheduler :=
                                            schedule_at start' author
                                              (AddRoleSchedule author work_time start')
                                              (role_scheduler s1)\<rparr>
                              in Inr (ctx_send (ScheduledModPings author start' endt') s2)))))"

section \<open>Message helpers\<close>

record reaction =
  reaction_message_id :: nat
  reaction_emoji :: string

text \<open>A user: the id, and the ids of the roles (\<open>getattr(user, "roles", [])\<close>).\<close>

record user =
  user_id :: nat
  user_roles :: "nat list"

record message =
  message_id :: nat
  message_guild :: "nat option"

text \<open>
  \<open>reaction_check\<close>. \<open>bot_user\<close> is the id of \<open>bot.instance.user\<close> and
  \<open>MODERATION_ROLES\<close> the constant of \<open>bot.constants\<close>, both taken as parameters.
  The second component is the reaction removals the check starts with
  \<open>scheduling.create_task\<close>.
\<close>

definition reaction_check ::
  "nat \<Rightarrow> nat list \<Rightarrow> nat \<Rightarrow> string list \<Rightarrow> nat list \<Rightarrow> bool \<Rightarrow> reaction \<Rightarrow> user
     \<Rightarrow> bool \<times> (reaction \<times> user) list" where
  "reaction_check bot_user MODERATION_ROLES msg_id allowed_emoji allowed_users allow_mods
       reaction user =
     (let right_reaction =
            (user_id user \<noteq> bot_user
             \<and> reaction_message_id reaction = msg_id
             \<and> reaction_emoji reaction \<in> set allowed_emoji)
      in if \<not> right_reaction then (False, [])
         else
           let is_moderator =
                 (allow_mods \<and> list_ex (\<lambda>role. role \<in> set MODERATION_ROLES) (user_roles user))
           in if user_id user \<in> set allowed_users \<or> is_moderator then (True, [])
              else (False, [(reaction, user)]))"

text \<open>
  What the platform does during one call of \<open>wait_for_deletion\<close>: the outcome of
  \<open>message.add_reaction\<close> for each emoji and of \<open>message.delete\<close> (\<open>None\<close>: no
  exception), and the \<open>reaction_add\<close> events in the order they arrive, each with the
  seconds elapsed since the wait began.
\<close>

record platform =
  add_reaction_raises :: "string \<Rightarrow> pyexn option"
  delete_raises :: "pyexn option"
  reaction_events :: "(rat \<times> reaction \<times> user) list"

text \<open>
  \<open>bot.instance.wait_for('reaction_add', check=check, timeout=timeout)\<close> of discord.py:
  it returns the first event for which the check holds, and raises
  \<open>asyncio.TimeoutError\<close> (here \<open>None\<close>) once \<open>timeout\<close> seconds have passed. The check
  runs on every event that arrives before that.
\<close>

fun wait_for ::
  "(reaction \<Rightarrow> user \<Rightarrow> bool \<times> (reaction \<times> user) list) \<Rightarrow> rat \<Rightarrow> (rat \<times> reaction \<times> user) list
     \<Rightarrow> (reaction \<times> user) option \<times> (reaction \<times> user) list" where
  "wait_for check timeout [] = (None, [])"
| "wait_for check timeout ((arrival, r, u) # events) =
     (if timeout \<le> arrival then (None, [])
      else if fst (check r u) then (Some (r, u), snd (check r u))
      else (fst (wait_for check timeout events),
            snd (check r u) @ snd (wait_for check timeout events)))"

text \<open>
  The loop \<open>for emoji in deletion_emojis: await message.add_reaction(emoji)\<close>: the first
  exception ends it; the emojis attached so far are returned with it.
\<close>

fun add_reactions :: "(string \<Rightarrow> pyexn option) \<Rightarrow> string list \<Rightarrow> pyexn option \<times> string list" where
  "add_reactions raises [] = (None, [])"
| "add_reactions raises (emoji # emojis) =
     (case raises emoji of
        Some e \<Rightarrow> (Some e, [])
      | None \<Rightarrow> (fst (add_reactions raises emojis), emoji # snd (add_reactions raises emojis)))"

text \<open>
  What a call of \<open>wait_for_deletion\<close> did: the exception that reached the caller, whether
  the message was deleted, the emojis attached and the reaction removals started.
\<close>

record deletion_result =
  raised :: "pyexn option"
  deleted :: bool
  attached :: "string list"
  removals :: "(reaction \<times> user) list"

text \<open>The default of the parameter \<open>timeout\<close>: \<open>60 * 5\<close>.\<close>

definition default_timeout :: rat where
  "default_timeout = 60 * 5"

definition wait_for_deletion ::
  "nat \<Rightarrow> nat list \<Rightarrow> platform \<Rightarrow> message \<Rightarrow> nat list \<Rightarrow> string list \<Rightarrow> rat \<Rightarrow> bool \<Rightarrow> bool
     \<Rightarrow> deletion_result" where
  "wait_for_deletion bot_user MODERATION_ROLES env msg user_ids deletion_emojis timeout
       attach_emojis allow_mods =
     (if message_guild msg = None
      then \<lparr>raised = Some ValueError, deleted = False, attached = [], removals = []\<rparr>
      else
        let added = (if attach_emojis then add_reactions (add_reaction_raises env) deletion_emojis
                     else (None, []))
        in case fst added of
             Some e \<Rightarrow>
               \<lparr>raised = (if e = NotFound then None else Some e), deleted = False,
                attached = snd added, removals = []\<rparr>
           | None \<Rightarrow>
               let check = reaction_check bot_user MODERATION_ROLES (message_id msg)
                             deletion_emojis user_ids allow_mods;
                   waited = wait_for check timeout (reaction_events env)
               in case fst waited of
                    None \<Rightarrow>
                      \<lparr>raised = None, deleted = False, attached = snd added,
                       removals = snd waited\<rparr>
                  | Some ev \<Rightarrow>
                      (case delete_raises env of
                         None \<Rightarrow>
                           \<lparr>raised = None, deleted = True, attached = snd added,
                            removals = snd waited\<rparr>
                       | Some e \<Rightarrow>
                           \<lparr>raised = (if e = TimeoutError then None else Some e),
                            deleted = False, attached = snd added, removals = snd waited\<rparr>))"

text \<open>
  A Python \<open>str\<close> is the list of its Unicode code points. Under \<open>re.I\<close> each of the
  pattern's letters \<open>c\<close>, \<open>l\<close>, \<open>y\<close>, \<open>d\<close>, \<open>e\<close> matches its lower-case and its upper-case
  ASCII letter and nothing else (no other code point folds to one of them).
\<close>

type_synonym pystr = "nat list"

definition imatch :: "nat \<Rightarrow> nat \<Rightarrow> bool" where
  "imatch p x = (x = p \<or> x + 32 = p)"

text \<open>The pattern \<open>(clyd)(e)\<close> with \<open>re.I\<close> matches at the head of the text.\<close>

fun clyde_prefix :: "pystr \<Rightarrow> bool" where
  "clyde_prefix (c # l # y # d # e # rest) =
     (imatch 99 c \<and> imatch 108 l \<and> imatch 121 y \<and> imatch 100 d \<and> imatch 101 e)"
| "clyde_prefix xs = False"

text \<open>
  \<open>replace_e\<close>, on group 2 of the match: U+0435 (Cyrillic small ie) if it is \<open>"e"\<close>,
  else U+0415 (Cyrillic capital ie). Group 1 is put back unchanged by the caller.
\<close>

definition replace_e :: "nat \<Rightarrow> nat" where
  "replace_e m2 = (if m2 = 101 then 1077 else 1045)"

text \<open>
  \<open>re.sub(r"(clyd)(e)", replace_e, username, flags=re.I)\<close>: the matches are found from
  left to right and do not overlap; each is replaced by group 1 and the new character.
\<close>

fun re_sub_clyde :: "pystr \<Rightarrow> pystr" where
  "re_sub_clyde (c # l # y # d # e # rest) =
     (if clyde_prefix (c # l # y # d # e # rest)
      then [c, l, y, d] @ [replace_e e] @ re_sub_clyde rest
      else c # re_sub_clyde (l # y # d # e # rest))"
| "re_sub_clyde xs = xs"

definition sub_clyde :: "pystr option \<Rightarrow> pystr option" where
  "sub_clyde username =
     (case username of
        None \<Rightarrow> None
      | Some s \<Rightarrow> if s \<noteq> [] then Some (re_sub_clyde s) else Some s)"

text \<open>A case-insensitive occurrence of \<open>clyde\<close> starts at index \<open>i\<close>.\<close>

definition clyde_at :: "pystr \<Rightarrow> nat \<Rightarrow> bool" where
  "clyde_at xs i = clyde_prefix (drop i xs)"

section \<open>Facts about the scheduler and the reconciliation loop\<close>


lemma map_of_schedule_at:
  "map_of (schedule_at t k c sch) k' =
     (if k' = k \<and> map_of sch k = None then Some (t, c) else map_of sch k')"
  by (auto simp: schedule_at_def scheduler_contains_def map_add_def split: option.splits)

lemma reschedule_roles_body_cache:
  "pings_off_mods (reschedule_roles_body on off m s) = pings_off_mods s"
  by (simp add: reschedule_roles_body_def reapply_role_def add_roles_def split: option.splits)

lemma reschedule_roles_body_role_mono:
  "m \<in> moderators_role s \<Longrightarrow> m \<in> moderators_role (reschedule_roles_body on off a s)"
  by (simp add: reschedule_roles_body_def reapply_role_def add_roles_def split: option.splits)

lemma reschedule_roles_body_timer_kept:
  "map_of (role_scheduler s) m = Some tc \<Longrightarrow>
   map_of (role_scheduler (reschedule_roles_body on off a s)) m = Some tc"
  by (auto simp: reschedule_roles_body_def reapply_role_def add_roles_def map_of_schedule_at
           split: option.splits)

lemma reschedule_roles_body_other_timer:
  "a \<noteq> m \<Longrightarrow>
   map_of (role_scheduler (reschedule_roles_body on off a s)) m = map_of (role_scheduler s) m"
  by (simp add: reschedule_roles_body_def reapply_role_def add_roles_def map_of_schedule_at
           split: option.splits)

lemma reschedule_roles_loop_cache:
  "pings_off_mods (reschedule_roles_loop on off ms s) = pings_off_mods s"
  by (induction ms arbitrary: s) (simp_all add: reschedule_roles_body_cache)

lemma reschedule_roles_loop_role_mono:
  "m \<in> moderators_role s \<Longrightarrow> m \<in> moderators_role (reschedule_roles_loop on off ms s)"
  by (induction ms arbitrary: s) (simp_all add: reschedule_roles_body_role_mono)

lemma reschedule_roles_loop_timer_kept:
  "map_of (role_scheduler s) m = Some tc \<Longrightarrow>
   map_of (role_scheduler (reschedule_roles_loop on off ms s)) m = Some tc"
  by (induction ms arbitrary: s) (simp_all add: reschedule_roles_body_timer_kept)

lemma reschedule_roles_loop_reapplies:
  "m \<in> set ms \<Longrightarrow> m \<notin> on \<Longrightarrow> map_of off m = None \<Longrightarrow>
   m \<in> moderators_role (reschedule_roles_loop on off ms s)"
proof (induction ms arbitrary: s)
  case Nil
  then show ?case by simp
next
  case (Cons a ms)
  show ?case
  proof (cases "a = m")
    case True
    have "m \<in> moderators_role (reschedule_roles_body on off m s)"
      using Cons.prems by (simp add: reschedule_roles_body_def reapply_role_def add_roles_def)
    then show ?thesis using True reschedule_roles_loop_role_mono by simp
  next
    case False
    then have "m \<in> set ms" using Cons.prems by simp
    then show ?thesis using Cons.IH Cons.prems by simp
  qed
qed

lemma reschedule_roles_loop_arms:
  "m \<in> set ms \<Longrightarrow> m \<notin> on \<Longrightarrow> map_of off m = Some expiry \<Longrightarrow>
   map_of (role_scheduler s) m = None \<Longrightarrow>
   map_of (role_scheduler (reschedule_roles_loop on off ms s)) m = Some (expiry, ReapplyRole m)"
proof (induction ms arbitrary: s)
  case Nil
  then show ?case by simp
next
  case (Cons a ms)
  show ?case
  proof (cases "a = m")
    case True
    have "map_of (role_scheduler (reschedule_roles_body on off m s)) m = Some (expiry, ReapplyRole m)"
      using Cons.prems by (simp add: reschedule_roles_body_def map_of_schedule_at)
    then have "map_of (role_scheduler (reschedule_roles_loop on off ms (reschedule_roles_body on off m s))) m
                 = Some (expiry, ReapplyRole m)"
      by (rule reschedule_roles_loop_timer_kept)
    then show ?thesis using True by simp
  next
    case False
    then have in_ms: "m \<in> set ms" using Cons.prems by simp
    have "map_of (role_scheduler (reschedule_roles_body on off a s)) m = None"
      using False Cons.prems(4) by (simp add: reschedule_roles_body_other_timer)
    from Cons.IH[OF in_ms Cons.prems(2,3) this] show ?thesis by simp
  qed
qed

section \<open>Floats that are exact\<close>

lemma py_float_0: "py_float 0 = 0"
  by (simp add: py_float_def)

lemma py_float_28800: "py_float 28800 = 28800"
  by code_simp

lemma py_float_54000: "py_float 54000 = 54000"
  by code_simp

lemma py_float_57600: "py_float 57600 = 57600"
  by code_simp

lemma py_float_72000: "py_float 72000 = 72000"
  by code_simp

section \<open>The shift cycle\<close>

text \<open>
  C1: member 1 is on a shift that started at 0 (1970-01-01 00:00) with a work duration of
  72000 seconds (20 hours) and holds the role; the timer that started the shift has fired
  and left the pending set. \<open>remove_role_schedule\<close> removes the role and arms the next
  \<open>add_role_schedule\<close> at one minute past the old start, not at 20 hours and one minute.
  Had the key still been pending, the scheduler would have kept the old timer; in
  neither case is a timer armed at start plus work duration plus one minute.
\<close>

theorem remove_role_schedule_not_after_work_duration:
  "remove_role_schedule 1 72000 0 (ModPings_init {1} [1] [] [(1, (0, 72000))])
     = (None,
        \<lparr>moderators_role = {}, mod_team = [1], pings_off_mods = [],
         modpings_schedule = [(1, (0, 72000))],
         role_scheduler = [(1, timedelta_minutes 1, AddRoleSchedule 1 72000 (timedelta_minutes 1))],
         sent = []\<rparr>)
   \<and> total_seconds (timedelta_hours 20) = 72000
   \<and> timedelta_minutes 1 \<noteq> 0 + timedelta_hours 20 + timedelta_minutes 1
   \<and> role_scheduler (snd (remove_role_schedule 1 72000 0
        \<lparr>moderators_role = {1}, mod_team = [1], pings_off_mods = [],
         modpings_schedule = [(1, (0, 72000))],
         role_scheduler = [(1, 0, AddRoleSchedule 1 72000 0)], sent = []\<rparr>))
       = [(1, 0, AddRoleSchedule 1 72000 0)]"
  by (simp add: remove_role_schedule_def remove_roles_def Let_def schedule_at_def
        scheduler_contains_def ModPings_init_def timedelta_minutes_def timedelta_hours_def
        total_seconds_def datetime_plus_def datetime_min_def datetime_max_def py_float_72000)

text \<open>
  C8: \<open>add_role_schedule\<close> tests the \<open>Member\<close> object against the cache's \<open>int\<close> keys,
  so the role is applied although member 1 has an off-until entry.
\<close>

theorem add_role_schedule_ignores_off_until:
  "map_of (pings_off_mods (ModPings_init {} [1] [(1, 5)] [])) 1 = Some 5
   \<and> 1 \<notin> moderators_role (ModPings_init {} [1] [(1, 5)] [])
   \<and> 1 \<in> moderators_role (add_role_schedule_start 1 (ModPings_init {} [1] [(1, 5)] []))"
  by (simp add: add_role_schedule_start_def add_roles_def ModPings_init_def)

section \<open>Startup reconciliation\<close>

text \<open>
  C2: with one entry in the shift-schedule cache, \<open>reschedule_modpings_schedule\<close> ends
  with \<open>TypeError\<close> and no timer is armed.
\<close>

theorem reschedule_modpings_schedule_raises:
  "reschedule_modpings_schedule (ModPings_init {} [1] [] [(1, (0, 72000))])
     = (Some TypeError, ModPings_init {} [1] [] [(1, (0, 72000))])
   \<and> role_scheduler (snd (reschedule_modpings_schedule (ModPings_init {} [1] [] [(1, (0, 72000))]))) = []"
  by (simp add: reschedule_modpings_schedule_def ModPings_init_def)

text \<open>
  C6: member 1 holds the role and has an off-until entry; after \<open>reschedule_roles\<close>
  the entry is still in the cache.
\<close>

theorem reschedule_roles_keeps_stale_entry:
  "map_of (pings_off_mods (reschedule_roles (ModPings_init {1} [1] [(1, 5)] []))) 1 = Some 5"
  by (simp add: reschedule_roles_def reschedule_roles_body_def ModPings_init_def)

text \<open>
  C7: after \<open>reschedule_roles\<close> on a freshly initialised cog, every mod-team member who
  did not hold the role holds it if the off-until cache had no entry for them, and
  otherwise has a timer under their id, at the stored expiry, that re-applies the role.
\<close>

theorem reschedule_roles_lacking_role:
  assumes "m \<in> set team" and "m \<notin> holders"
  shows "case map_of off_cache m of
           None \<Rightarrow> m \<in> moderators_role (reschedule_roles (ModPings_init holders team off_cache sched_cache))
         | Some expiry \<Rightarrow>
             map_of (role_scheduler (reschedule_roles (ModPings_init holders team off_cache sched_cache))) m
               = Some (expiry, ReapplyRole m)"
proof (cases "map_of off_cache m")
  case None
  then show ?thesis
    using reschedule_roles_loop_reapplies[OF assms None]
    by (simp add: reschedule_roles_def ModPings_init_def)
next
  case (Some expiry)
  then show ?thesis
    using reschedule_roles_loop_arms[OF assms Some, of "ModPings_init holders team off_cache sched_cache"]
    by (simp add: reschedule_roles_def ModPings_init_def)
qed

theorem reschedule_roles_lacking_role_witness:
  "(2::nat) \<in> set [1, 2, 3] \<and> 2 \<notin> {1::nat} \<and> 3 \<in> set [1, 2, 3::nat] \<and> 3 \<notin> {1::nat}
   \<and> map_of [(1::nat, 50::int), (3, 70)] 2 = None
   \<and> 2 \<in> moderators_role (reschedule_roles (ModPings_init {1} [1, 2, 3] [(1, 50), (3, 70)] []))
   \<and> map_of (role_scheduler (reschedule_roles (ModPings_init {1} [1, 2, 3] [(1, 50), (3, 70)] []))) 3
        = Some (70, ReapplyRole 3)"
  using reschedule_roles_lacking_role [of 2 "[1, 2, 3]" "{1}" "[(1, 50), (3, 70)]" "[]"]
        reschedule_roles_lacking_role [of 3 "[1, 2, 3]" "{1}" "[(1, 50), (3, 70)]" "[]"]
  by simp

section \<open>The commands\<close>

text \<open>
  C3: a duration more than 30 days after the current time is rejected with a message;
  the off-until cache, the pending timers, the role's members and the shift-schedule
  cache are unchanged.
\<close>

theorem off_command_over_30_days_rejected:
  assumes "duration - now > timedelta_days 30"
  shows "sent (off_command now author duration s) = sent s @ [CannotRemoveLongerThan30Days]
       \<and> pings_off_mods (off_command now author duration s) = pings_off_mods s
       \<and> role_scheduler (off_command now author duration s) = role_scheduler s
       \<and> moderators_role (off_command now author duration s) = moderators_role s
       \<and> modpings_schedule (off_command now author duration s) = modpings_schedule s"
  using assms by (simp add: off_command_def ctx_send_def Let_def)

theorem off_command_over_30_days_rejected_witness:
  "2592000000001 - 0 > timedelta_days 30
   \<and> sent (off_command 0 1 2592000000001 (ModPings_init {1} [1] [] []))
        = [CannotRemoveLongerThan30Days]
   \<and> pings_off_mods (off_command 0 1 2592000000001 (ModPings_init {1} [1] [] [])) = []
   \<and> role_scheduler (off_command 0 1 2592000000001 (ModPings_init {1} [1] [] [])) = []
   \<and> moderators_role (off_command 0 1 2592000000001 (ModPings_init {1} [1] [] [])) = {1}"
  using off_command_over_30_days_rejected
          [where now = 0 and duration = 2592000000001 and author = 1
             and s = "ModPings_init {1} [1] [] []"]
  by (simp add: ModPings_init_def timedelta_days_def)



text \<open>
  C5: start 08:00+00:00 and end 23:00-05:00 of 1970-01-01. The end is not before the
  start, the window \<open>end - start\<close> is 20 hours (72000 seconds) and passes the 16-hour
  check, and the work time stored and handed to the timer is 54000 seconds (15 hours),
  the difference of the wall clocks after \<open>replace(tzinfo=None)\<close>.
\<close>

theorem schedule_modpings_drops_offsets:
  "dt_less \<lparr>wall = timedelta_hours 23, utcoffset = Some (- timedelta_hours 5)\<rparr>
           \<lparr>wall = timedelta_hours 8, utcoffset = Some 0\<rparr> = Inr False
   \<and> dt_minus \<lparr>wall = timedelta_hours 23, utcoffset = Some (- timedelta_hours 5)\<rparr>
           \<lparr>wall = timedelta_hours 8, utcoffset = Some 0\<rparr> = Inr (timedelta_hours 20)
   \<and> total_seconds (timedelta_hours 20) = 72000
   \<and> schedule_modpings 1 \<lparr>wall = timedelta_hours 8, utcoffset = Some 0\<rparr>
        \<lparr>wall = timedelta_hours 23, utcoffset = Some (- timedelta_hours 5)\<rparr>
        (ModPings_init {} [1] [] [])
      = Inr \<lparr>moderators_role = {}, mod_team = [1], pings_off_mods = [],
             modpings_schedule = [(1, (28800, 54000))],
             role_scheduler = [(1, timedelta_hours 8, AddRoleSchedule 1 54000 (timedelta_hours 8))],
             sent = [ScheduledModPings 1 (timedelta_hours 8) (timedelta_hours 23)]\<rparr>
   \<and> (54000 :: rat) \<noteq> 72000
   \<and> total_seconds (timedelta_hours MINIMUM_WORK_LIMIT) = 57600"
  by (simp add: schedule_modpings_def dt_less_def dt_minus_def timedelta_hours_def
        timedelta_days_def MINIMUM_WORK_LIMIT_def ModPings_init_def ctx_send_def Let_def
        replace_tzinfo_None_def total_seconds_def timestamp_def schedule_at_def
        scheduler_contains_def datetime_min_def py_float_0 py_float_28800 py_float_54000
        py_float_57600 py_float_72000)

section \<open>Waiting for a deletion reaction\<close>

lemma wait_for_times_out:
  "list_all (\<lambda>(arrival, r, u). arrival < timeout \<longrightarrow> \<not> fst (check r u)) events \<Longrightarrow>
   fst (wait_for check timeout events) = None"
  by (induction events) auto

text \<open>
  C9: when the message is on a guild, the emojis were attached (or were not to be), and
  no reaction that arrives before \<open>timeout\<close> seconds have passed satisfies
  \<open>reaction_check\<close>, then \<open>wait_for_deletion\<close> returns without an exception and the
  message is not deleted; reactions arriving later are never looked at. The default
  \<open>timeout\<close> is 300 seconds.
\<close>

theorem wait_for_deletion_timeout:
  assumes "message_guild msg \<noteq> None"
    and "attach_emojis \<longrightarrow> fst (add_reactions (add_reaction_raises env) deletion_emojis) = None"
    and "\<forall>(arrival, r, u) \<in> set (reaction_events env).
           arrival < timeout \<longrightarrow>
           \<not> fst (reaction_check bot_user MODERATION_ROLES (message_id msg) deletion_emojis
                    user_ids allow_mods r u)"
  shows "raised (wait_for_deletion bot_user MODERATION_ROLES env msg user_ids deletion_emojis
                   timeout attach_emojis allow_mods) = None
       \<and> \<not> deleted (wait_for_deletion bot_user MODERATION_ROLES env msg user_ids deletion_emojis
                   timeout attach_emojis allow_mods)
       \<and> default_timeout = 300"
proof -
  let ?check = "reaction_check bot_user MODERATION_ROLES (message_id msg) deletion_emojis
                  user_ids allow_mods"
  have "list_all (\<lambda>(arrival, r, u). arrival < timeout \<longrightarrow> \<not> fst (?check r u))
          (reaction_events env)"
    using assms(3) by (simp add: list_all_iff)
  then have w: "fst (wait_for ?check timeout (reaction_events env)) = None"
    by (rule wait_for_times_out)
  have a: "fst (if attach_emojis then add_reactions (add_reaction_raises env) deletion_emojis
                else (None, [])) = None"
    using assms(2) by simp
  show ?thesis using assms(1) w a
    by (simp add: wait_for_deletion_def Let_def default_timeout_def)
qed

theorem wait_for_deletion_timeout_witness:
  "message_guild \<lparr>message_id = 10, message_guild = Some 1\<rparr> \<noteq> None
   \<and> fst (add_reactions (\<lambda>e. None) [''x'']) = None
   \<and> \<not> fst (reaction_check 0 [7] 10 [''x''] [5] True
              \<lparr>reaction_message_id = 10, reaction_emoji = ''x''\<rparr> \<lparr>user_id = 6, user_roles = []\<rparr>)
   \<and> fst (reaction_check 0 [7] 10 [''x''] [5] True
              \<lparr>reaction_message_id = 10, reaction_emoji = ''x''\<rparr> \<lparr>user_id = 5, user_roles = []\<rparr>)
   \<and> \<not> 301 < default_timeout
   \<and> raised (wait_for_deletion 0 [7]
      \<lparr>add_reaction_raises = (\<lambda>e. None), delete_raises = None,
       reaction_events =
         [(10, \<lparr>reaction_message_id = 10, reaction_emoji = ''x''\<rparr>, \<lparr>user_id = 6, user_roles = []\<rparr>),
          (301, \<lparr>reaction_message_id = 10, reaction_emoji = ''x''\<rparr>, \<lparr>user_id = 5, user_roles = []\<rparr>)]\<rparr>
      \<lparr>message_id = 10, message_guild = Some 1\<rparr> [5] [''x''] default_timeout True True) = None
   \<and> \<not> deleted (wait_for_deletion 0 [7]
      \<lparr>add_reaction_raises = (\<lambda>e. None), delete_raises = None,
       reaction_events =
         [(10, \<lparr>reaction_message_id = 10, reaction_emoji = ''x''\<rparr>, \<lparr>user_id = 6, user_roles = []\<rparr>),
          (301, \<lparr>reaction_message_id = 10, reaction_emoji = ''x''\<rparr>, \<lparr>user_id = 5, user_roles = []\<rparr>)]\<rparr>
      \<lparr>message_id = 10, message_guild = Some 1\<rparr> [5] [''x''] default_timeout True True)
   \<and> deleted (wait_for_deletion 0 [7]
      \<lparr>add_reaction_raises = (\<lambda>e. None), delete_raises = None,
       reaction_events =
         [(10, \<lparr>reaction_message_id = 10, reaction_emoji = ''x''\<rparr>, \<lparr>user_id = 6, user_roles = []\<rparr>),
          (299, \<lparr>reaction_message_id = 10, reaction_emoji = ''x''\<rparr>, \<lparr>user_id = 5, user_roles = []\<rparr>)]\<rparr>
      \<lparr>message_id = 10, message_guild = Some 1\<rparr> [5] [''x''] default_timeout True True)"
proof -
  let ?env = "\<lparr>add_reaction_raises = (\<lambda>e. None), delete_raises = None,
       reaction_events =
         [(10, \<lparr>reaction_message_id = 10, reaction_emoji = ''x''\<rparr>, \<lparr>user_id = 6, user_roles = []\<rparr>),
          (301, \<lparr>reaction_message_id = 10, reaction_emoji = ''x''\<rparr>, \<lparr>user_id = 5, user_roles = []\<rparr>)]\<rparr>"
  let ?msg = "\<lparr>message_id = 10, message_guild = Some (1::nat)\<rparr>"
  have guild: "message_guild ?msg \<noteq> None" by simp
  have attach: "True \<longrightarrow> fst (add_reactions (add_reaction_raises ?env) [''x'']) = None" by simp
  have events: "\<forall>(arrival, r, u) \<in> set (reaction_events ?env).
           arrival < default_timeout \<longrightarrow>
           \<not> fst (reaction_check 0 [7] (message_id ?msg) [''x''] [5] True r u)"
    by (simp add: reaction_check_def default_timeout_def)
  from wait_for_deletion_timeout [OF guild attach events]
  show ?thesis
    by (simp add: wait_for_deletion_def reaction_check_def default_timeout_def Let_def)
qed

section \<open>Facts about the substitution\<close>

lemma length_re_sub_clyde: "length (re_sub_clyde xs) = length xs"
  by (induction xs rule: re_sub_clyde.induct) auto

lemma take_re_sub_clyde: "n \<le> 4 \<Longrightarrow> take n (re_sub_clyde xs) = take n xs"
proof (induction xs arbitrary: n rule: re_sub_clyde.induct)
  case (1 c l y d e rest)
  from "1.prems" have n: "n = 0 \<or> n = 1 \<or> n = 2 \<or> n = 3 \<or> n = 4" by arith
  show ?case
  proof (cases "clyde_prefix (c # l # y # d # e # rest)")
    case True
    then show ?thesis using n by auto
  next
    case False
    show ?thesis
    proof (cases n)
      case 0
      then show ?thesis by simp
    next
      case (Suc m)
      then have "m \<le> 4" using "1.prems" by simp
      from "1.IH"(2)[OF False this] show ?thesis using False Suc
        by (simp del: clyde_prefix.simps)
    qed
  qed
qed simp_all

lemma clyde_prefix_take5: "clyde_prefix (take 5 xs) = clyde_prefix xs"
  by (induction xs rule: clyde_prefix.induct) simp_all

lemma clyde_prefix_Cons_sub:
  "clyde_prefix (c # re_sub_clyde ys) = clyde_prefix (c # ys)"
proof -
  have "take 4 (re_sub_clyde ys) = take 4 ys" by (rule take_re_sub_clyde) simp
  then have "take 5 (c # re_sub_clyde ys) = take 5 (c # ys)" by simp
  then show ?thesis by (metis clyde_prefix_take5)
qed

lemma clyde_prefix_ConsD: "clyde_prefix (x # xs) \<Longrightarrow> imatch 99 x"
  by (erule clyde_prefix.elims) auto

lemma clyde_at_0: "clyde_at xs 0 = clyde_prefix xs"
  by (simp add: clyde_at_def)

lemma clyde_at_Suc: "clyde_at (x # xs) (Suc i) = clyde_at xs i"
  by (simp add: clyde_at_def)

lemma clyde_at_plus5: "clyde_at (a # b # c # d # e # zs) (n + 5) = clyde_at zs n"
proof -
  have "drop (n + 5) (a # b # c # d # e # zs) = drop n (drop 5 (a # b # c # d # e # zs))"
    by (simp only: drop_drop)
  then show ?thesis by (simp add: clyde_at_def)
qed

lemma nth_plus5: "(a # b # c # d # e # zs) ! (n + 5) = zs ! n"
  by simp

lemma not_clyde_at_inside:
  assumes "imatch 108 l" "imatch 121 y" "imatch 100 d" "\<not> imatch 99 e" "i \<in> {1, 2, 3, 4}"
  shows "\<not> clyde_at (c # l # y # d # e # zs) i"
proof
  assume a: "clyde_at (c # l # y # d # e # zs) i"
  have h: "\<not> imatch 99 l" "\<not> imatch 99 y" "\<not> imatch 99 d"
    using assms(1-3) by (auto simp: imatch_def)
  from assms(5) consider "i = 1" | "i = 2" | "i = 3" | "i = 4" by auto
  then show False
  proof cases
    case 1
    with a have "clyde_prefix (l # y # d # e # zs)" by (simp add: clyde_at_def)
    then show False using h(1) clyde_prefix_ConsD by blast
  next
    case 2
    with a have "clyde_prefix (y # d # e # zs)" by (simp add: clyde_at_def)
    then show False using h(2) clyde_prefix_ConsD by blast
  next
    case 3
    with a have "clyde_prefix (d # e # zs)" by (simp add: clyde_at_def)
    then show False using h(3) clyde_prefix_ConsD by blast
  next
    case 4
    with a have "clyde_prefix (e # zs)" by (simp add: clyde_at_def)
    then show False using assms(4) clyde_prefix_ConsD by blast
  qed
qed

lemma split_index: "(i::nat) = 0 \<or> i \<in> {1, 2, 3, 4} \<or> (\<exists>k. i = k + 5)"
proof -
  have "i = 0 \<or> i = 1 \<or> i = 2 \<or> i = 3 \<or> i = 4 \<or> 5 \<le> i" by arith
  moreover have "\<exists>k. i = k + 5" if "5 \<le> i" using that le_Suc_ex by (metis add.commute)
  ultimately show ?thesis by auto
qed

lemma no_clyde_at_short: "length xs < 5 \<Longrightarrow> \<not> clyde_at xs i"
proof -
  have "\<And>ys. clyde_prefix ys \<Longrightarrow> 5 \<le> length ys"
    by (erule clyde_prefix.elims) auto
  then show "length xs < 5 \<Longrightarrow> \<not> clyde_at xs i"
    unfolding clyde_at_def by fastforce
qed

lemma no_clyde_at_sub: "\<not> clyde_at (re_sub_clyde xs) i"
proof (induction xs arbitrary: i rule: re_sub_clyde.induct)
  case (1 c l y d e rest)
  show ?case
  proof (cases "clyde_prefix (c # l # y # d # e # rest)")
    case True
    then have m: "imatch 108 l" "imatch 121 y" "imatch 100 d" by simp_all
    have r: "\<not> imatch 101 (replace_e e)" "\<not> imatch 99 (replace_e e)"
      by (simp_all add: imatch_def replace_e_def)
    have res: "re_sub_clyde (c # l # y # d # e # rest) = c # l # y # d # replace_e e # re_sub_clyde rest"
      using True by (simp del: clyde_prefix.simps)
    from split_index[of i] show ?thesis
    proof (elim disjE exE)
      assume "i = 0"
      then show ?thesis unfolding res using r(1) by (simp add: clyde_at_0)
    next
      assume "i \<in> {1, 2, 3, 4}"
      then show ?thesis unfolding res using not_clyde_at_inside[OF m r(2)] by blast
    next
      fix k assume "i = k + 5"
      then show ?thesis unfolding res using "1.IH"(1)[OF True, of k]
        by (simp only: clyde_at_plus5 not_False_eq_True)
    qed
  next
    case False
    then have res: "re_sub_clyde (c # l # y # d # e # rest) = c # re_sub_clyde (l # y # d # e # rest)"
      by (simp del: clyde_prefix.simps)
    show ?thesis
    proof (cases i)
      case 0
      then show ?thesis unfolding res using False clyde_prefix_Cons_sub[of c "l # y # d # e # rest"]
        by (simp add: clyde_at_0 del: clyde_prefix.simps)
    next
      case (Suc k)
      then show ?thesis unfolding res using "1.IH"(2)[OF False, of k]
        by (simp add: clyde_at_Suc del: clyde_prefix.simps)
    qed
  qed
qed (simp_all add: no_clyde_at_short)

lemma sub_clyde_nth_match:
  "clyde_at xs i \<Longrightarrow> re_sub_clyde xs ! (i + 4) = replace_e (xs ! (i + 4))"
proof (induction xs arbitrary: i rule: re_sub_clyde.induct)
  case (1 c l y d e rest)
  show ?case
  proof (cases "clyde_prefix (c # l # y # d # e # rest)")
    case True
    then have m: "imatch 108 l" "imatch 121 y" "imatch 100 d" "imatch 101 e" by simp_all
    have e: "\<not> imatch 99 e" using m(4) by (auto simp: imatch_def)
    have res: "re_sub_clyde (c # l # y # d # e # rest) = c # l # y # d # replace_e e # re_sub_clyde rest"
      using True by (simp del: clyde_prefix.simps)
    from split_index[of i] show ?thesis
    proof (elim disjE exE)
      assume "i = 0"
      then show ?thesis unfolding res by simp
    next
      assume "i \<in> {1, 2, 3, 4}"
      then show ?thesis using not_clyde_at_inside[OF m(1-3) e] "1.prems" by blast
    next
      fix k assume k: "i = k + 5"
      then have "clyde_at rest k" using "1.prems" by (simp only: clyde_at_plus5)
      from "1.IH"(1)[OF True this] have "re_sub_clyde rest ! (k + 4) = replace_e (rest ! (k + 4))" .
      moreover have "i + 4 = (k + 4) + 5" using k by simp
      ultimately show ?thesis unfolding res by (simp only: nth_plus5)
    qed
  next
    case False
    then have res: "re_sub_clyde (c # l # y # d # e # rest) = c # re_sub_clyde (l # y # d # e # rest)"
      by (simp del: clyde_prefix.simps)
    show ?thesis
    proof (cases i)
      case 0
      then show ?thesis using False "1.prems" by (simp add: clyde_at_0 del: clyde_prefix.simps)
    next
      case (Suc k)
      then have "clyde_at (l # y # d # e # rest) k" using "1.prems" by (simp only: clyde_at_Suc)
      from "1.IH"(2)[OF False this]
      have "re_sub_clyde (l # y # d # e # rest) ! (k + 4) = replace_e ((l # y # d # e # rest) ! (k + 4))" .
      moreover have "i + 4 = Suc (k + 4)" using Suc by simp
      ultimately show ?thesis unfolding res by (simp only: nth_Cons_Suc)
    qed
  qed
qed (simp_all add: no_clyde_at_short)

lemma sub_clyde_nth_other:
  "\<not> (4 \<le> j \<and> clyde_at xs (j - 4)) \<Longrightarrow> re_sub_clyde xs ! j = xs ! j"
proof (induction xs arbitrary: j rule: re_sub_clyde.induct)
  case (1 c l y d e rest)
  show ?case
  proof (cases "clyde_prefix (c # l # y # d # e # rest)")
    case True
    have res: "re_sub_clyde (c # l # y # d # e # rest) = c # l # y # d # replace_e e # re_sub_clyde rest"
      using True by (simp del: clyde_prefix.simps)
    from split_index[of j] show ?thesis
    proof (elim disjE exE)
      assume "j = 0"
      then show ?thesis unfolding res by simp
    next
      assume j: "j \<in> {1, 2, 3, 4}"
      have "j \<noteq> 4" using "1.prems" True by (auto simp: clyde_at_0 simp del: clyde_prefix.simps)
      with j show ?thesis unfolding res by auto
    next
      fix k assume k: "j = k + 5"
      have "\<not> (4 \<le> k \<and> clyde_at rest (k - 4))"
      proof
        assume a: "4 \<le> k \<and> clyde_at rest (k - 4)"
        then have "j - 4 = (k - 4) + 5" "4 \<le> j" using k by simp_all
        then show False using a "1.prems" by (simp only: clyde_at_plus5 simp_thms)
      qed
      from "1.IH"(1)[OF True this] show ?thesis unfolding res k by (simp only: nth_plus5)
    qed
  next
    case False
    then have res: "re_sub_clyde (c # l # y # d # e # rest) = c # re_sub_clyde (l # y # d # e # rest)"
      by (simp del: clyde_prefix.simps)
    show ?thesis
    proof (cases j)
      case 0
      then show ?thesis unfolding res by simp
    next
      case (Suc k)
      have "\<not> (4 \<le> k \<and> clyde_at (l # y # d # e # rest) (k - 4))"
      proof
        assume a: "4 \<le> k \<and> clyde_at (l # y # d # e # rest) (k - 4)"
        then have "j - 4 = Suc (k - 4)" "4 \<le> j" using Suc by arith+
        then show False using a "1.prems" by (simp only: clyde_at_Suc simp_thms)
      qed
      from "1.IH"(2)[OF False this] show ?thesis unfolding res Suc by simp
    qed
  qed
qed simp_all

text \<open>
  C10: \<open>sub_clyde\<close> returns \<open>None\<close> exactly for \<open>None\<close>. For a non-empty text it
  returns a text of the same length in which the fifth character of every
  case-insensitive occurrence of \<open>clyde\<close> is the Cyrillic letter (small for \<open>e\<close>, capital
  for \<open>E\<close>), every other character is unchanged, and no case-insensitive occurrence of
  \<open>clyde\<close> is left.
\<close>

theorem sub_clyde_spec:
  "(sub_clyde u = None \<longleftrightarrow> u = None) \<and>
   (s \<noteq> [] \<longrightarrow> (\<exists>r. sub_clyde (Some s) = Some r \<and> length r = length s
      \<and> (\<forall>i. clyde_at s i \<longrightarrow> r ! (i + 4) = (if s ! (i + 4) = 101 then 1077 else 1045))
      \<and> (\<forall>j. \<not> (4 \<le> j \<and> clyde_at s (j - 4)) \<longrightarrow> r ! j = s ! j)
      \<and> (\<forall>i. \<not> clyde_at r i)))"
proof (intro conjI impI)
  show "sub_clyde u = None \<longleftrightarrow> u = None"
    by (simp add: sub_clyde_def split: option.splits)
next
  assume ne: "s \<noteq> []"
  have "sub_clyde (Some s) = Some (re_sub_clyde s)" using ne by (simp add: sub_clyde_def)
  moreover have "length (re_sub_clyde s) = length s" by (rule length_re_sub_clyde)
  moreover have "\<forall>i. clyde_at s i \<longrightarrow>
      re_sub_clyde s ! (i + 4) = (if s ! (i + 4) = 101 then 1077 else 1045)"
    using sub_clyde_nth_match by (simp add: replace_e_def)
  moreover have "\<forall>j. \<not> (4 \<le> j \<and> clyde_at s (j - 4)) \<longrightarrow> re_sub_clyde s ! j = s ! j"
    using sub_clyde_nth_other by blast
  moreover have "\<forall>i. \<not> clyde_at (re_sub_clyde s) i" using no_clyde_at_sub by blast
  ultimately show "\<exists>r. sub_clyde (Some s) = Some r \<and> length r = length s
      \<and> (\<forall>i. clyde_at s i \<longrightarrow> r ! (i + 4) = (if s ! (i + 4) = 101 then 1077 else 1045))
      \<and> (\<forall>j. \<not> (4 \<le> j \<and> clyde_at s (j - 4)) \<longrightarrow> r ! j = s ! j)
      \<and> (\<forall>i. \<not> clyde_at r i)" by blast
qed

theorem sub_clyde_spec_witness:
  "[67, 108, 121, 100, 69] \<noteq> ([] :: pystr)
   \<and> sub_clyde (Some [67, 108, 121, 100, 69]) = Some [67, 108, 121, 100, 1045]
   \<and> clyde_at [67, 108, 121, 100, 69] 0
   \<and> \<not> clyde_at [67, 108, 121, 100, 1045] 0
   \<and> sub_clyde None = None"
  using sub_clyde_spec [of None "[67, 108, 121, 100, 69]"]
  by (simp add: sub_clyde_def clyde_at_def imatch_def replace_e_def)

end
